theory Spec2Isabelle
  imports Main "HOL-Library.Word"
begin

section \<open>The responder of \<^verbatim>\<open>main.go\<close>\<close>

text \<open>
  The program keeps two package-level variables, the allow-list \<^verbatim>\<open>subdomains\<close> and the
  record cache \<^verbatim>\<open>rrCache\<close>, and answers each decoded query in \<^verbatim>\<open>handle\<close>. The
  embedding is sequential: one call runs to its end before the next starts, so the
  reader/writer lock \<^verbatim>\<open>muSubdomains\<close> has no effect and is left out. A Go panic is the
  left summand of the result.
\<close>

subsection \<open>Data\<close>

text \<open>
  The two run-time panics the code of \<^verbatim>\<open>main.go\<close> can raise by itself: an index into an
  empty slice (\<^verbatim>\<open>r.Question[0]\<close>) and the one-result type assertion \<^verbatim>\<open>rr.(dns.RR)\<close> on a
  nil interface value.
\<close>

datatype panic = IndexOutOfRange | NilInterfaceConversion

text \<open>
  Modelled from the spec: the question type \<^verbatim>\<open>dns.Question\<close> and the type codes
  \<^verbatim>\<open>dns.TypeA\<close> and \<^verbatim>\<open>dns.TypeNS\<close> are declared in the DNS library, outside the sources.
  The spec gives a query a list of questions, each a name, a type and a class; the type
  and the class are 16-bit numbers, A is type 1 and NS is type 2.
\<close>

record question =
  Name :: string
  Qtype :: "16 word"
  Qclass :: "16 word"

definition TypeA :: "16 word" where
  "TypeA = 1"

definition TypeNS :: "16 word" where
  "TypeNS = 2"

text \<open>
  Modelled from the spec: the message type \<^verbatim>\<open>dns.Msg\<close> is declared in the DNS library,
  outside the sources. The spec gives a message its questions, a reply flag, the Answer
  record list and the Extra record list; the id is kept as well, so that two queries can
  differ in it. A value of the interface type \<^verbatim>\<open>dns.RR\<close> is \<open>'rr option\<close>: \<open>None\<close> is the
  nil interface, \<open>Some v\<close> a record \<open>v\<close> of the library. The record type itself stays a
  parameter \<open>'rr\<close>.
\<close>

record 'rr msg =
  Id_hdr :: "16 word"
  Response :: bool
  Question :: "question list"
  Answer :: "'rr option list"
  Extra :: "'rr option list"

text \<open>\<^verbatim>\<open>new(dns.Msg)\<close>: every field at its zero value.\<close>

definition new_Msg :: "'rr msg" where
  "new_Msg = \<lparr>Id_hdr = 0, Response = False, Question = [], Answer = [], Extra = []\<rparr>"

text \<open>
  Modelled from the spec: \<^verbatim>\<open>m.SetReply(r)\<close> is the DNS library's, outside the sources. The
  spec has the reply sent "as a reply to the original query (reply flag set, question
  echoed)": the reply takes the request's id, sets the reply flag and echoes the first
  question when there is one. The record sections stay as they were.
\<close>

definition SetReply :: "'rr msg \<Rightarrow> 'rr msg \<Rightarrow> 'rr msg" where
  "SetReply m request =
     m\<lparr>Id_hdr := Id_hdr request, Response := True,
       Question := (case Question request of [] \<Rightarrow> Question m | q # _ \<Rightarrow> [q])\<rparr>"

text \<open>The package-level variables: the allow-list and the cache, keyed by record text.\<close>

record 'rr state =
  subdomains :: "string list"
  rrCache :: "string \<rightharpoonup> 'rr option"

definition defaultSubdomains :: "string list" where
  "defaultSubdomains =
     [''t.example.com.'', ''ns1.t.example.com.'', ''www.t.example.com.'',
      ''test001.t.example.com.'']"

text \<open>The variables as their initialisers leave them.\<close>

definition init_state :: "'rr state" where
  "init_state = \<lparr>subdomains = defaultSubdomains, rrCache = Map.empty\<rparr>"

subsection \<open>Operations\<close>

definition resetSubdomains :: "'rr state \<Rightarrow> 'rr state" where
  "resetSubdomains s = s\<lparr>subdomains := defaultSubdomains\<rparr>"

text \<open>
  Modelled from the spec: \<^verbatim>\<open>slices.Contains\<close> is Go's standard library's, outside the
  sources. The spec's membership test is "true iff the name is present (exact string
  match; no wildcard or suffix matching)". It is written as the library computes it:
  \<^verbatim>\<open>slices.Index\<close> scans for the first element equal to \<open>v\<close> and gives its position, or
  \<open>-1\<close>, and \<^verbatim>\<open>slices.Contains\<close> tests that position against 0. Go compares strings byte
  by byte.
\<close>

fun Index :: "'a list \<Rightarrow> 'a \<Rightarrow> int" where
  "Index [] v = - 1"
| "Index (x # xs) v =
     (if v = x then 0 else (let i = Index xs v in if i < 0 then - 1 else i + 1))"

definition Contains :: "'a list \<Rightarrow> 'a \<Rightarrow> bool" where
  "Contains xs v = (0 \<le> Index xs v)"

text \<open>
  \<^verbatim>\<open>newRR\<close>. The library parser \<^verbatim>\<open>dns.NewRR\<close> is the parameter \<open>NewRR\<close>: it gives the
  record of a text, or nil; its error result is thrown away by the code. The cache is a
  \<^verbatim>\<open>sync.Map\<close>: \<^verbatim>\<open>Load\<close> reports a key as present once \<^verbatim>\<open>Store\<close> has been called for it,
  also when the stored value is nil. On a hit the stored value goes through the
  one-result type assertion \<^verbatim>\<open>rr.(dns.RR)\<close>, which Go defines to panic when the value is
  the nil interface. On a miss the parser's result is stored as it is, nil included.
\<close>

definition newRR ::
  "(string \<Rightarrow> 'rr option) \<Rightarrow> string \<Rightarrow> 'rr state \<Rightarrow> panic + ('rr option \<times> 'rr state)" where
  "newRR NewRR t s =
     (case rrCache s t of
        Some rr \<Rightarrow>
          (case rr of
             None \<Rightarrow> Inl NilInterfaceConversion
           | Some v \<Rightarrow> Inr (Some v, s))
      | None \<Rightarrow>
          (let r = NewRR t in Inr (r, s\<lparr>rrCache := (rrCache s)(t \<mapsto> r)\<rparr>)))"

text \<open>
  \<^verbatim>\<open>handle\<close>. The result is the panic, or what was passed to \<^verbatim>\<open>w.WriteMsg\<close> (\<open>None\<close> when
  the handler returns without writing) together with the variables afterwards.
\<close>

definition handle ::
  "(string \<Rightarrow> 'rr option) \<Rightarrow> 'rr state \<Rightarrow> 'rr msg \<Rightarrow> panic + ('rr msg option \<times> 'rr state)" where
  "handle NewRR s r =
     (let m = SetReply new_Msg r in
      case Question r of
        [] \<Rightarrow> Inl IndexOutOfRange
      | q # _ \<Rightarrow>
          if Qtype q = TypeNS \<and> Name q = ''t.example.com.'' then
            (case newRR NewRR ''t.example.com. 5 IN NS ns1.t.example.com.'' s of
               Inl e \<Rightarrow> Inl e
             | Inr (a, s1) \<Rightarrow>
                 (case newRR NewRR ''ns1.t.example.com. 5 IN A 192.168.0.11'' s1 of
                    Inl e \<Rightarrow> Inl e
                  | Inr (b, s2) \<Rightarrow> Inr (Some (m\<lparr>Answer := [a], Extra := [b]\<rparr>), s2)))
          else if Contains (subdomains s) (Name q) then
            (case newRR NewRR (Name q @ '' 5 IN A 192.168.0.11'') s of
               Inl e \<Rightarrow> Inl e
             | Inr (a, s1) \<Rightarrow> Inr (Some (m\<lparr>Answer := [a]\<rparr>), s1))
          else Inr (None, s))"

subsection \<open>Runs of the program\<close>

text \<open>
  The states the program can be in: the initial one, and any state after a reset or
  after a query that was handled to its end. \<^verbatim>\<open>main\<close> itself calls \<^verbatim>\<open>resetSubdomains\<close> once
  and then serves queries.
\<close>

inductive reachable :: "(string \<Rightarrow> 'rr option) \<Rightarrow> 'rr state \<Rightarrow> bool"
  for NewRR :: "string \<Rightarrow> 'rr option" where
  init: "reachable NewRR init_state"
| reset: "reachable NewRR s \<Longrightarrow> reachable NewRR (resetSubdomains s)"
| query: "reachable NewRR s \<Longrightarrow> handle NewRR s r = Inr (out, s') \<Longrightarrow> reachable NewRR s'"

text \<open>
  The cache holds only what \<^verbatim>\<open>newRR\<close> stored: under a text, the parser's result for
  that text. It holds of the empty cache and of every reachable state.
\<close>

definition cache_ok :: "(string \<Rightarrow> 'rr option) \<Rightarrow> 'rr state \<Rightarrow> bool" where
  "cache_ok NewRR s = (\<forall>t v. rrCache s t = Some v \<longrightarrow> v = NewRR t)"

text \<open>
  What a querier can tell of one call: the panic, or whether a reply was written and
  with which Answer and Extra sections, and the variables afterwards.
\<close>

fun outcome ::
  "panic + ('rr msg option \<times> 'rr state) \<Rightarrow>
   panic + (('rr option list \<times> 'rr option list) option \<times> 'rr state)" where
  "outcome (Inl e) = Inl e"
| "outcome (Inr (None, s)) = Inr (None, s)"
| "outcome (Inr (Some m, s)) = Inr (Some (Answer m, Extra m), s)"

subsection \<open>A parser for the examples\<close>

text \<open>
  The theorems below hold for every parser. The closed examples need one: \<open>sampleNewRR\<close>
  reads the five-field form \<^verbatim>\<open>owner TTL IN A|NS data\<close>, fields separated by single
  blanks, and gives nil for any other text.
\<close>

fun split_fields :: "string \<Rightarrow> string list" where
  "split_fields [] = [[]]"
| "split_fields (c # cs) =
     (if c = CHR '' '' then [] # split_fields cs
      else (case split_fields cs of [] \<Rightarrow> [[c]] | f # fs \<Rightarrow> (c # f) # fs))"

datatype sample_rr =
  SampleRR (owner: string) (ttl: string) (cls: string) (rrtype: string) (rdata: string)

definition sampleNewRR :: "string \<Rightarrow> sample_rr option" where
  "sampleNewRR t =
     (case split_fields t of
        [n, l, c, ty, d] \<Rightarrow>
          if n \<noteq> [] \<and> l \<noteq> [] \<and> d \<noteq> [] \<and> c = ''IN'' \<and> (ty = ''A'' \<or> ty = ''NS'')
          then Some (SampleRR n l c ty d) else None
      | _ \<Rightarrow> None)"

text \<open>A query with the one question \<open>(n, ty)\<close> of class IN.\<close>

definition sample_query :: "string \<Rightarrow> 16 word \<Rightarrow> sample_rr msg" where
  "sample_query n ty =
     \<lparr>Id_hdr = 7, Response = False,
      Question = [\<lparr>Name = n, Qtype = ty, Qclass = 1\<rparr>], Answer = [], Extra = []\<rparr>"

section \<open>Lemmas\<close>

subsection \<open>The sample parser on the texts of the examples\<close>

lemma sampleNewRR_ns:
  "sampleNewRR ''t.example.com. 5 IN NS ns1.t.example.com.'' =
     Some (SampleRR ''t.example.com.'' ''5'' ''IN'' ''NS'' ''ns1.t.example.com.'')"
  by (simp add: sampleNewRR_def)

lemma sampleNewRR_glue:
  "sampleNewRR ''ns1.t.example.com. 5 IN A 192.168.0.11'' =
     Some (SampleRR ''ns1.t.example.com.'' ''5'' ''IN'' ''A'' ''192.168.0.11'')"
  by (simp add: sampleNewRR_def)

lemma sampleNewRR_www:
  "sampleNewRR ''www.t.example.com. 5 IN A 192.168.0.11'' =
     Some (SampleRR ''www.t.example.com.'' ''5'' ''IN'' ''A'' ''192.168.0.11'')"
  by (simp add: sampleNewRR_def)

lemma sampleNewRR_bogus: "sampleNewRR ''bogus'' = None"
  by (simp add: sampleNewRR_def)

lemma cache_ok_init: "cache_ok NewRR init_state"
  by (simp add: cache_ok_def init_state_def)

subsection \<open>Membership\<close>

lemma Index_ge: "- 1 \<le> Index xs v"
  by (induction xs) (auto simp: Let_def)

lemma Index_nonneg_iff: "(0 \<le> Index xs v) = (v \<in> set xs)"
proof (induction xs)
  case Nil
  show ?case by simp
next
  case (Cons x xs)
  have "- 1 \<le> Index xs v" by (rule Index_ge)
  with Cons show ?case by (auto simp: Let_def)
qed

lemma Contains_iff: "Contains xs v = (v \<in> set xs)"
  by (simp add: Contains_def Index_nonneg_iff)

subsection \<open>The cache\<close>

lemma newRR_parsed:
  assumes "cache_ok NewRR s" and "NewRR t = Some v"
  shows "newRR NewRR t s = Inr (Some v, s\<lparr>rrCache := (rrCache s)(t \<mapsto> Some v)\<rparr>)"
proof (cases "rrCache s t")
  case None
  with assms show ?thesis by (simp add: newRR_def Let_def)
next
  case (Some x)
  with assms have x: "x = Some v" by (simp add: cache_ok_def)
  with Some have "(rrCache s)(t \<mapsto> Some v) = rrCache s" by (simp add: map_upd_triv)
  with Some x show ?thesis by (simp add: newRR_def)
qed

lemma cache_ok_store:
  "cache_ok NewRR s \<Longrightarrow> cache_ok NewRR (s\<lparr>rrCache := (rrCache s)(t \<mapsto> NewRR t)\<rparr>)"
  by (simp add: cache_ok_def)

lemma newRR_subdomains:
  assumes "newRR NewRR t s = Inr (x, s')"
  shows "subdomains s' = subdomains s"
  using assms by (auto simp: newRR_def Let_def split: option.splits)

lemma newRR_result:
  assumes "cache_ok NewRR s" and "newRR NewRR t s = Inr (x, s')"
  shows "x = NewRR t \<and> cache_ok NewRR s'"
proof (cases "rrCache s t")
  case None
  with assms show ?thesis
    by (auto simp: newRR_def Let_def cache_ok_def split: if_splits)
next
  case (Some y)
  with assms show ?thesis
    by (auto simp: newRR_def cache_ok_def split: option.splits)
qed

subsection \<open>The handler, branch by branch\<close>

lemma handle_lookup_miss:
  assumes "Question r = q # qs"
    and "\<not> (Qtype q = TypeNS \<and> Name q = ''t.example.com.'')"
    and "Name q \<notin> set (subdomains s)"
  shows "handle NewRR s r = Inr (None, s)"
proof -
  have c: "(Qtype q = TypeNS \<and> Name q = ''t.example.com.'') = False"
    using assms(2) by simp
  have d: "Contains (subdomains s) (Name q) = False"
    using assms(3) by (simp add: Contains_iff)
  show ?thesis
    unfolding handle_def Let_def by (simp only: assms(1) c d list.case if_False)
qed

lemma handle_lookup_hit:
  assumes "Question r = q # qs"
    and "\<not> (Qtype q = TypeNS \<and> Name q = ''t.example.com.'')"
    and "Name q \<in> set (subdomains s)"
    and "cache_ok NewRR s"
    and "NewRR (Name q @ '' 5 IN A 192.168.0.11'') = Some a"
  shows "handle NewRR s r =
           Inr (Some ((SetReply new_Msg r)\<lparr>Answer := [Some a]\<rparr>),
                s\<lparr>rrCache := (rrCache s)(Name q @ '' 5 IN A 192.168.0.11'' \<mapsto> Some a)\<rparr>)"
proof -
  have "newRR NewRR (Name q @ '' 5 IN A 192.168.0.11'') s =
          Inr (Some a, s\<lparr>rrCache := (rrCache s)(Name q @ '' 5 IN A 192.168.0.11'' \<mapsto> Some a)\<rparr>)"
    using assms(4,5) by (rule newRR_parsed)
  moreover have c: "(Qtype q = TypeNS \<and> Name q = ''t.example.com.'') = False"
    using assms(2) by simp
  moreover have d: "Contains (subdomains s) (Name q) = True"
    using assms(3) by (simp add: Contains_iff)
  ultimately show ?thesis
    unfolding handle_def Let_def
    by (simp only: assms(1) list.case if_False if_True sum.case prod.case)
qed

lemma handle_delegation:
  assumes "Question r = q # qs"
    and "Qtype q = TypeNS" and "Name q = ''t.example.com.''"
    and "cache_ok NewRR s"
    and "NewRR ''t.example.com. 5 IN NS ns1.t.example.com.'' = Some a"
    and "NewRR ''ns1.t.example.com. 5 IN A 192.168.0.11'' = Some b"
  shows "handle NewRR s r =
           Inr (Some ((SetReply new_Msg r)\<lparr>Answer := [Some a], Extra := [Some b]\<rparr>),
                s\<lparr>rrCache := (rrCache s)
                  (''t.example.com. 5 IN NS ns1.t.example.com.'' \<mapsto> Some a,
                   ''ns1.t.example.com. 5 IN A 192.168.0.11'' \<mapsto> Some b)\<rparr>)"
proof -
  let ?s1 = "s\<lparr>rrCache := (rrCache s)(''t.example.com. 5 IN NS ns1.t.example.com.'' \<mapsto> Some a)\<rparr>"
  have 1: "newRR NewRR ''t.example.com. 5 IN NS ns1.t.example.com.'' s = Inr (Some a, ?s1)"
    using assms(4,5) by (rule newRR_parsed)
  have "cache_ok NewRR ?s1"
    using cache_ok_store [OF assms(4), of "''t.example.com. 5 IN NS ns1.t.example.com.''"]
    by (simp only: assms(5))
  then have 2: "newRR NewRR ''ns1.t.example.com. 5 IN A 192.168.0.11'' ?s1 =
      Inr (Some b, ?s1\<lparr>rrCache := (rrCache ?s1)(''ns1.t.example.com. 5 IN A 192.168.0.11'' \<mapsto> Some b)\<rparr>)"
    using assms(6) by (rule newRR_parsed)
  have c: "(Qtype q = TypeNS \<and> Name q = ''t.example.com.'') = True"
    using assms(2,3) by simp
  show ?thesis
    unfolding handle_def Let_def
    by (simp only: assms(1) c 1 2 list.case if_True sum.case prod.case) simp
qed

lemma handle_delegation_writes:
  assumes "Question r = q # qs"
    and "Qtype q = TypeNS \<and> Name q = ''t.example.com.''"
  shows "handle NewRR s r \<noteq> Inr (None, s')"
  using assms by (simp add: handle_def Let_def split: sum.splits prod.splits)

lemma handle_subdomains:
  assumes "handle NewRR s r = Inr (out, s')"
  shows "subdomains s' = subdomains s"
  using assms
  by (auto simp: handle_def Let_def split: list.splits if_splits sum.splits prod.splits
      dest!: newRR_subdomains)

lemma handle_cache_ok:
  assumes "cache_ok NewRR s" and "handle NewRR s r = Inr (out, s')"
  shows "cache_ok NewRR s'"
  using assms
  by (auto simp: handle_def Let_def split: list.splits if_splits sum.splits prod.splits
      dest: newRR_result)

lemma reachable_subdomains: "reachable NewRR s \<Longrightarrow> subdomains s = defaultSubdomains"
proof (induction rule: reachable.induct)
  case init
  show ?case by (simp add: init_state_def)
next
  case (reset s)
  show ?case by (simp add: resetSubdomains_def)
next
  case (query s r out s')
  from query.hyps(2) have "subdomains s' = subdomains s" by (rule handle_subdomains)
  with query.IH show ?case by simp
qed

text \<open>
  While the allow-list is the default list, which holds \<^verbatim>\<open>t.example.com.\<close>, a name
  outside the list is never the delegation name: in a reachable state every query for
  such a name is dropped.
\<close>

lemma reachable_unlisted_dropped:
  assumes "reachable NewRR s" and "Question r = q # qs"
    and "Name q \<notin> set (subdomains s)"
  shows "handle NewRR s r = Inr (None, s)"
proof -
  from assms(1) have "subdomains s = defaultSubdomains" by (rule reachable_subdomains)
  with assms(3) have "Name q \<noteq> ''t.example.com.''"
    by (auto simp: defaultSubdomains_def)
  then have "\<not> (Qtype q = TypeNS \<and> Name q = ''t.example.com.'')" by simp
  with assms(2) show ?thesis using assms(3) by (rule handle_lookup_miss)
qed

lemma reachable_cache_ok: "reachable NewRR s \<Longrightarrow> cache_ok NewRR s"
proof (induction rule: reachable.induct)
  case init
  show ?case by (rule cache_ok_init)
next
  case (reset s)
  then show ?case by (simp add: cache_ok_def resetSubdomains_def)
next
  case (query s r out s')
  then show ?case by (blast intro: handle_cache_ok)
qed

lemma newRR_panic:
  assumes "newRR NewRR t s = Inl e"
  shows "e = NilInterfaceConversion \<and> rrCache s t = Some None"
  using assms by (auto simp: newRR_def Let_def split: option.splits)

lemma handle_no_index_panic:
  assumes "Question r = q # qs"
  shows "handle NewRR s r \<noteq> Inl IndexOutOfRange"
  using assms
  by (auto simp: handle_def Let_def split: sum.splits prod.splits dest!: newRR_panic)

text \<open>
  What a call that returns has written: it is fixed by the first question, the
  allow-list and the parser, whatever else the cache holds.
\<close>

lemma handle_returns:
  assumes "cache_ok NewRR s" and "Question r = q # qs"
    and "handle NewRR s r = Inr (out, s')"
  shows "map_option (\<lambda>m. (Answer m, Extra m)) out =
     (if Qtype q = TypeNS \<and> Name q = ''t.example.com.''
      then Some ([NewRR ''t.example.com. 5 IN NS ns1.t.example.com.''],
                 [NewRR ''ns1.t.example.com. 5 IN A 192.168.0.11''])
      else if Name q \<in> set (subdomains s)
      then Some ([NewRR (Name q @ '' 5 IN A 192.168.0.11'')], [])
      else None)"
proof (cases "Qtype q = TypeNS \<and> Name q = ''t.example.com.''")
  case True
  from assms(3) True assms(2) obtain a s1 b where
    1: "newRR NewRR ''t.example.com. 5 IN NS ns1.t.example.com.'' s = Inr (a, s1)"
    and 2: "newRR NewRR ''ns1.t.example.com. 5 IN A 192.168.0.11'' s1 = Inr (b, s')"
    and o: "out = Some ((SetReply new_Msg r)\<lparr>Answer := [a], Extra := [b]\<rparr>)"
    by (auto simp: handle_def Let_def split: sum.splits prod.splits)
  from assms(1) 1 have a: "a = NewRR ''t.example.com. 5 IN NS ns1.t.example.com.''"
    and c1: "cache_ok NewRR s1" by (auto dest: newRR_result)
  from c1 2 have "b = NewRR ''ns1.t.example.com. 5 IN A 192.168.0.11''"
    by (auto dest: newRR_result)
  with a o True show ?thesis by simp
next
  case False
  show ?thesis
  proof (cases "Name q \<in> set (subdomains s)")
    case True
    with assms(3) False assms(2) obtain a where
      1: "newRR NewRR (Name q @ '' 5 IN A 192.168.0.11'') s = Inr (a, s')"
      and o: "out = Some ((SetReply new_Msg r)\<lparr>Answer := [a]\<rparr>)"
      by (auto simp: handle_def Let_def Contains_iff split: sum.splits prod.splits)
    from assms(1) 1 have "a = NewRR (Name q @ '' 5 IN A 192.168.0.11'')"
      by (auto dest: newRR_result)
    with o True False show ?thesis by (simp add: SetReply_def new_Msg_def)
  next
    case n: False
    with assms(3) False assms(2) have "out = None"
      by (auto simp: handle_def Let_def Contains_iff)
    with n False show ?thesis by simp
  qed
qed

section \<open>The claims\<close>

text \<open>
  C1. A query with a first question \<open>q\<close>. When the name of \<open>q\<close> is not in the current
  allow-list and \<open>q\<close> is not the pair (\<^verbatim>\<open>t.example.com.\<close>, NS), the handler writes no reply
  and changes nothing. When the name is in the allow-list and the type is A, the handler
  writes a reply whose Answer is exactly one record: the one the parser builds from the
  text \<^verbatim>\<open><name> 5 IN A 192.168.0.11\<close>. The cache is assumed to hold only what \<^verbatim>\<open>newRR\<close>
  stored, as it does in every reachable state.
\<close>

theorem handle_allow_list_gating:
  assumes "Question r = q # qs"
  shows "(Name q \<notin> set (subdomains s) \<and> \<not> (Name q = ''t.example.com.'' \<and> Qtype q = TypeNS)
            \<longrightarrow> handle NewRR s r = Inr (None, s))
       \<and> (Name q \<in> set (subdomains s) \<and> Qtype q = TypeA \<and> cache_ok NewRR s
            \<and> NewRR (Name q @ '' 5 IN A 192.168.0.11'') = Some a
            \<longrightarrow> (\<exists>m s'. handle NewRR s r = Inr (Some m, s') \<and> Answer m = [Some a]))"
proof (intro conjI impI)
  assume "Name q \<notin> set (subdomains s) \<and> \<not> (Name q = ''t.example.com.'' \<and> Qtype q = TypeNS)"
  then have "\<not> (Qtype q = TypeNS \<and> Name q = ''t.example.com.'')"
    and "Name q \<notin> set (subdomains s)" by blast+
  with assms show "handle NewRR s r = Inr (None, s)"
    by (rule handle_lookup_miss)
next
  assume h: "Name q \<in> set (subdomains s) \<and> Qtype q = TypeA \<and> cache_ok NewRR s
            \<and> NewRR (Name q @ '' 5 IN A 192.168.0.11'') = Some a"
  then have "\<not> (Qtype q = TypeNS \<and> Name q = ''t.example.com.'')"
    by (simp add: TypeA_def TypeNS_def)
  with assms h have "handle NewRR s r =
           Inr (Some ((SetReply new_Msg r)\<lparr>Answer := [Some a]\<rparr>),
                s\<lparr>rrCache := (rrCache s)(Name q @ '' 5 IN A 192.168.0.11'' \<mapsto> Some a)\<rparr>)"
    by (intro handle_lookup_hit) blast+
  then show "\<exists>m s'. handle NewRR s r = Inr (Some m, s') \<and> Answer m = [Some a]"
    by simp
qed

theorem handle_allow_list_gating_witness:
  "handle sampleNewRR init_state (sample_query ''evil.example.com.'' TypeA) = Inr (None, init_state)
   \<and> (\<exists>m s'. handle sampleNewRR init_state (sample_query ''www.t.example.com.'' TypeA)
                = Inr (Some m, s')
             \<and> Answer m = [Some (SampleRR ''www.t.example.com.'' ''5'' ''IN'' ''A'' ''192.168.0.11'')])"
  using handle_allow_list_gating [where r = "sample_query ''evil.example.com.'' TypeA"
      and q = "\<lparr>Name = ''evil.example.com.'', Qtype = TypeA, Qclass = 1\<rparr>" and qs = "[]"
      and s = init_state and NewRR = sampleNewRR]
    handle_allow_list_gating [where r = "sample_query ''www.t.example.com.'' TypeA"
      and q = "\<lparr>Name = ''www.t.example.com.'', Qtype = TypeA, Qclass = 1\<rparr>" and qs = "[]"
      and s = init_state and NewRR = sampleNewRR
      and a = "SampleRR ''www.t.example.com.'' ''5'' ''IN'' ''A'' ''192.168.0.11''"]
    cache_ok_init [of sampleNewRR]
  by (simp add: sample_query_def init_state_def defaultSubdomains_def sampleNewRR_www)

text \<open>
  C2. A query whose first question is (\<^verbatim>\<open>t.example.com.\<close>, NS). The handler writes a reply
  whose Answer is exactly the record of the text \<^verbatim>\<open>t.example.com. 5 IN NS ns1.t.example.com.\<close>
  and whose Extra is exactly the record of \<^verbatim>\<open>ns1.t.example.com. 5 IN A 192.168.0.11\<close>, and
  the same reply is written whatever list \<open>xs\<close> the allow-list holds.
\<close>

theorem handle_delegation_response:
  assumes "Question r = q # qs"
    and "Qtype q = TypeNS" and "Name q = ''t.example.com.''"
    and "cache_ok NewRR s"
    and "NewRR ''t.example.com. 5 IN NS ns1.t.example.com.'' = Some a"
    and "NewRR ''ns1.t.example.com. 5 IN A 192.168.0.11'' = Some b"
  shows "\<exists>m. Answer m = [Some a] \<and> Extra m = [Some b]
           \<and> (\<exists>s'. handle NewRR s r = Inr (Some m, s'))
           \<and> (\<forall>xs. \<exists>s'. handle NewRR (s\<lparr>subdomains := xs\<rparr>) r = Inr (Some m, s'))"
proof -
  let ?m = "(SetReply new_Msg r)\<lparr>Answer := [Some a], Extra := [Some b]\<rparr>"
  have all: "\<exists>s'. handle NewRR (s\<lparr>subdomains := xs\<rparr>) r = Inr (Some ?m, s')" for xs
  proof -
    have "cache_ok NewRR (s\<lparr>subdomains := xs\<rparr>)"
      using assms(4) by (simp add: cache_ok_def)
    with assms(1,2,3) show ?thesis
      using assms(5,6) by (blast dest: handle_delegation)
  qed
  have "\<exists>s'. handle NewRR s r = Inr (Some ?m, s')"
    using assms by (blast dest: handle_delegation)
  moreover have "Answer ?m = [Some a]" and "Extra ?m = [Some b]" by simp_all
  ultimately show ?thesis using all by blast
qed

theorem handle_delegation_response_witness:
  "\<exists>m. Answer m = [Some (SampleRR ''t.example.com.'' ''5'' ''IN'' ''NS'' ''ns1.t.example.com.'')]
     \<and> Extra m = [Some (SampleRR ''ns1.t.example.com.'' ''5'' ''IN'' ''A'' ''192.168.0.11'')]
     \<and> (\<exists>s'. handle sampleNewRR init_state (sample_query ''t.example.com.'' TypeNS)
                 = Inr (Some m, s'))
     \<and> (\<exists>s'. handle sampleNewRR (init_state\<lparr>subdomains := []\<rparr>)
                  (sample_query ''t.example.com.'' TypeNS) = Inr (Some m, s'))"
proof -
  have "Question (sample_query ''t.example.com.'' TypeNS) =
          \<lparr>Name = ''t.example.com.'', Qtype = TypeNS, Qclass = 1\<rparr> # []"
    by (simp add: sample_query_def)
  then show ?thesis
    using handle_delegation_response [where r = "sample_query ''t.example.com.'' TypeNS"
        and s = init_state and NewRR = sampleNewRR, OF _ _ _ cache_ok_init
        sampleNewRR_ns sampleNewRR_glue]
    by fastforce
qed

text \<open>
  C3, as it fails. The allow-list holds \<^verbatim>\<open>www.t.example.com.\<close> only. The queried name
  \<^verbatim>\<open>t.example.com.\<close> is a substring of that entry and equal to no entry, and membership
  is false; the query has type NS, so the handler takes the delegation branch and writes a
  reply all the same.
\<close>

theorem exact_match_drop_counterexample:
  "''www.t.example.com.'' = ''www.'' @ ''t.example.com.''
   \<and> ''t.example.com.'' \<notin> set [''www.t.example.com.'']
   \<and> Contains [''www.t.example.com.''] ''t.example.com.'' = False
   \<and> handle sampleNewRR \<lparr>subdomains = [''www.t.example.com.''], rrCache = Map.empty\<rparr>
         (sample_query ''t.example.com.'' TypeNS) =
       Inr (Some \<lparr>Id_hdr = 7, Response = True,
                  Question = [\<lparr>Name = ''t.example.com.'', Qtype = TypeNS, Qclass = 1\<rparr>],
                  Answer = [Some (SampleRR ''t.example.com.'' ''5'' ''IN'' ''NS'' ''ns1.t.example.com.'')],
                  Extra = [Some (SampleRR ''ns1.t.example.com.'' ''5'' ''IN'' ''A'' ''192.168.0.11'')]\<rparr>,
            \<lparr>subdomains = [''www.t.example.com.''],
             rrCache = [''t.example.com. 5 IN NS ns1.t.example.com.'' \<mapsto>
                          Some (SampleRR ''t.example.com.'' ''5'' ''IN'' ''NS'' ''ns1.t.example.com.''),
                        ''ns1.t.example.com. 5 IN A 192.168.0.11'' \<mapsto>
                          Some (SampleRR ''ns1.t.example.com.'' ''5'' ''IN'' ''A'' ''192.168.0.11'')]\<rparr>)
   \<and> handle sampleNewRR \<lparr>subdomains = [''www.t.example.com.''], rrCache = Map.empty\<rparr>
         (sample_query ''t.example.com.'' TypeNS) \<noteq>
       Inr (None, \<lparr>subdomains = [''www.t.example.com.''], rrCache = Map.empty\<rparr>)"
proof -
  have "Contains [''www.t.example.com.''] ''t.example.com.'' = False"
    by (simp add: Contains_iff)
  moreover have "handle sampleNewRR \<lparr>subdomains = [''www.t.example.com.''], rrCache = Map.empty\<rparr>
         (sample_query ''t.example.com.'' TypeNS) =
       Inr (Some \<lparr>Id_hdr = 7, Response = True,
                  Question = [\<lparr>Name = ''t.example.com.'', Qtype = TypeNS, Qclass = 1\<rparr>],
                  Answer = [Some (SampleRR ''t.example.com.'' ''5'' ''IN'' ''NS'' ''ns1.t.example.com.'')],
                  Extra = [Some (SampleRR ''ns1.t.example.com.'' ''5'' ''IN'' ''A'' ''192.168.0.11'')]\<rparr>,
            \<lparr>subdomains = [''www.t.example.com.''],
             rrCache = [''t.example.com. 5 IN NS ns1.t.example.com.'' \<mapsto>
                          Some (SampleRR ''t.example.com.'' ''5'' ''IN'' ''NS'' ''ns1.t.example.com.''),
                        ''ns1.t.example.com. 5 IN A 192.168.0.11'' \<mapsto>
                          Some (SampleRR ''ns1.t.example.com.'' ''5'' ''IN'' ''A'' ''192.168.0.11'')]\<rparr>)"
    by (simp add: handle_def newRR_def Let_def sample_query_def SetReply_def new_Msg_def
        sampleNewRR_ns sampleNewRR_glue)
  ultimately show ?thesis by simp
qed

text \<open>
  C3, amended. Membership is equality with an entry: a queried name that is equal to no
  entry of the allow-list (so every proper superstring, substring or differently-cased
  variant of an allowed name) is not contained, and its query is dropped, unless the
  first question is the delegation pair (\<^verbatim>\<open>t.example.com.\<close>, NS), which is never dropped.
\<close>

theorem membership_exact_match:
  assumes "Question r = q # qs" and "Name q \<notin> set (subdomains s)"
  shows "Contains (subdomains s) (Name q) = False
       \<and> (handle NewRR s r = Inr (None, s))
           = (\<not> (Qtype q = TypeNS \<and> Name q = ''t.example.com.''))"
proof -
  have "Contains (subdomains s) (Name q) = False"
    using assms(2) by (simp add: Contains_iff)
  moreover have "(handle NewRR s r = Inr (None, s))
           = (\<not> (Qtype q = TypeNS \<and> Name q = ''t.example.com.''))"
  proof (cases "Qtype q = TypeNS \<and> Name q = ''t.example.com.''")
    case True
    with assms(1) have "handle NewRR s r \<noteq> Inr (None, s)"
      by (rule handle_delegation_writes)
    with True show ?thesis by simp
  next
    case False
    with assms have "handle NewRR s r = Inr (None, s)"
      by (intro handle_lookup_miss)
    with False show ?thesis by simp
  qed
  ultimately show ?thesis by simp
qed

theorem membership_exact_match_witness:
  "Contains (subdomains (init_state :: sample_rr state)) ''a.www.t.example.com.'' = False
   \<and> handle sampleNewRR init_state (sample_query ''a.www.t.example.com.'' TypeA)
        = Inr (None, init_state)
   \<and> Contains (subdomains (init_state :: sample_rr state)) ''example.com.'' = False
   \<and> handle sampleNewRR init_state (sample_query ''example.com.'' TypeNS)
        = Inr (None, init_state)
   \<and> Contains (subdomains (init_state :: sample_rr state)) ''WWW.T.EXAMPLE.COM.'' = False
   \<and> handle sampleNewRR init_state (sample_query ''WWW.T.EXAMPLE.COM.'' TypeA)
        = Inr (None, init_state)"
  using membership_exact_match [where r = "sample_query ''a.www.t.example.com.'' TypeA"
      and q = "\<lparr>Name = ''a.www.t.example.com.'', Qtype = TypeA, Qclass = 1\<rparr>" and qs = "[]"
      and s = "init_state :: sample_rr state" and NewRR = sampleNewRR]
    membership_exact_match [where r = "sample_query ''example.com.'' TypeNS"
      and q = "\<lparr>Name = ''example.com.'', Qtype = TypeNS, Qclass = 1\<rparr>" and qs = "[]"
      and s = "init_state :: sample_rr state" and NewRR = sampleNewRR]
    membership_exact_match [where r = "sample_query ''WWW.T.EXAMPLE.COM.'' TypeA"
      and q = "\<lparr>Name = ''WWW.T.EXAMPLE.COM.'', Qtype = TypeA, Qclass = 1\<rparr>" and qs = "[]"
      and s = "init_state :: sample_rr state" and NewRR = sampleNewRR]
  by (simp add: sample_query_def init_state_def defaultSubdomains_def)

text \<open>
  C4. Whatever the allow-list held, after \<^verbatim>\<open>resetSubdomains\<close> it is the default list: each
  of the four default names is contained, and a name is contained only if it is one of
  the four. The function has no error result and leaves the cache alone.
\<close>

theorem reset_restores_defaults:
  "subdomains (resetSubdomains s) = defaultSubdomains
   \<and> rrCache (resetSubdomains s) = rrCache s
   \<and> Contains (subdomains (resetSubdomains s)) ''t.example.com.''
   \<and> Contains (subdomains (resetSubdomains s)) ''ns1.t.example.com.''
   \<and> Contains (subdomains (resetSubdomains s)) ''www.t.example.com.''
   \<and> Contains (subdomains (resetSubdomains s)) ''test001.t.example.com.''
   \<and> Contains (subdomains (resetSubdomains s)) n =
        (n = ''t.example.com.'' \<or> n = ''ns1.t.example.com.'' \<or> n = ''www.t.example.com.''
         \<or> n = ''test001.t.example.com.'')"
  by (simp add: resetSubdomains_def Contains_iff defaultSubdomains_def)

theorem reset_restores_defaults_witness:
  "subdomains (resetSubdomains
       (\<lparr>subdomains = [''other.example.com.''], rrCache = Map.empty\<rparr> :: sample_rr state))
     = defaultSubdomains
   \<and> Contains (subdomains (resetSubdomains
        (\<lparr>subdomains = [''other.example.com.''], rrCache = Map.empty\<rparr> :: sample_rr state)))
        ''www.t.example.com.''
   \<and> Contains (subdomains (resetSubdomains
        (\<lparr>subdomains = [''other.example.com.''], rrCache = Map.empty\<rparr> :: sample_rr state)))
        ''other.example.com.'' = False"
  using reset_restores_defaults
    [of "\<lparr>subdomains = [''other.example.com.''], rrCache = Map.empty\<rparr> :: sample_rr state"
      "''other.example.com.''"]
  by auto



text \<open>
  C6, where the code departs from it. For a text \<open>t\<close> the parser rejects, the first call
  returns nil without a panic and stores nil under \<open>t\<close>. In any later state \<open>s2\<close> whose cache
  still holds nil under \<open>t\<close>, the call does not return the cached nil: it panics.
\<close>

theorem newRR_rejected_text_cached:
  "(NewRR t = None \<and> rrCache s t = None
      \<longrightarrow> newRR NewRR t s = Inr (None, s\<lparr>rrCache := (rrCache s)(t \<mapsto> None)\<rparr>))
   \<and> (rrCache s2 t = Some None \<longrightarrow> newRR NewRR t s2 = Inl NilInterfaceConversion)"
  by (simp add: newRR_def)

theorem newRR_rejected_text_cached_witness:
  "newRR sampleNewRR ''bogus'' init_state
     = Inr (None, init_state\<lparr>rrCache := [''bogus'' \<mapsto> None]\<rparr>)
   \<and> newRR sampleNewRR ''bogus'' (init_state\<lparr>rrCache := [''bogus'' \<mapsto> None]\<rparr>)
     = Inl NilInterfaceConversion"
  using newRR_rejected_text_cached [of sampleNewRR "''bogus''" init_state
      "init_state\<lparr>rrCache := [''bogus'' \<mapsto> None]\<rparr>"]
  by (simp add: sampleNewRR_bogus init_state_def)

text \<open>
  C7. In every reachable state the allow-list is the default list, which has four
  entries, so it is never empty. A reset puts the default list in place as a whole, and a
  handled query leaves the allow-list as it was.
\<close>

theorem allow_list_never_empty:
  assumes "reachable NewRR s"
  shows "subdomains s \<noteq> [] \<and> subdomains s = defaultSubdomains \<and> length (subdomains s) = 4
       \<and> subdomains (resetSubdomains s) = defaultSubdomains
       \<and> (\<forall>r out s'. handle NewRR s r = Inr (out, s') \<longrightarrow> subdomains s' = subdomains s)"
proof -
  from assms have "subdomains s = defaultSubdomains"
    by (rule reachable_subdomains)
  moreover have "subdomains (resetSubdomains s) = defaultSubdomains"
    by (simp add: resetSubdomains_def)
  moreover have "\<forall>r out s'. handle NewRR s r = Inr (out, s') \<longrightarrow> subdomains s' = subdomains s"
    by (blast intro: handle_subdomains)
  ultimately show ?thesis by (simp add: defaultSubdomains_def)
qed

theorem allow_list_never_empty_witness:
  "subdomains (init_state\<lparr>rrCache := [''www.t.example.com. 5 IN A 192.168.0.11'' \<mapsto>
       Some (SampleRR ''www.t.example.com.'' ''5'' ''IN'' ''A'' ''192.168.0.11'')]\<rparr>) \<noteq> []
   \<and> length (subdomains (init_state\<lparr>rrCache := [''www.t.example.com. 5 IN A 192.168.0.11'' \<mapsto>
       Some (SampleRR ''www.t.example.com.'' ''5'' ''IN'' ''A'' ''192.168.0.11'')]\<rparr>)) = 4"
proof -
  let ?a = "SampleRR ''www.t.example.com.'' ''5'' ''IN'' ''A'' ''192.168.0.11''"
  let ?s1 = "init_state\<lparr>rrCache := [''www.t.example.com. 5 IN A 192.168.0.11'' \<mapsto> Some ?a]\<rparr>"
  have "handle sampleNewRR (resetSubdomains init_state) (sample_query ''www.t.example.com.'' TypeA)
          = Inr (Some ((SetReply new_Msg (sample_query ''www.t.example.com.'' TypeA))
                   \<lparr>Answer := [Some ?a]\<rparr>), ?s1)"
    by (simp add: handle_def newRR_def Let_def Contains_iff sample_query_def init_state_def
        resetSubdomains_def defaultSubdomains_def TypeA_def TypeNS_def sampleNewRR_www)
  with reachable.reset [OF reachable.init] have "reachable sampleNewRR ?s1"
    by (rule reachable.query)
  then have "subdomains ?s1 \<noteq> [] \<and> subdomains ?s1 = defaultSubdomains
      \<and> length (subdomains ?s1) = 4
      \<and> subdomains (resetSubdomains ?s1) = defaultSubdomains
      \<and> (\<forall>r out s'. handle sampleNewRR ?s1 r = Inr (out, s') \<longrightarrow> subdomains s' = subdomains ?s1)"
    by (rule allow_list_never_empty)
  then show ?thesis by blast
qed

text \<open>
  C8. Two queries with the same first question, whatever their further questions and
  their ids. Handled in the same state, they give the same panic or the same decision,
  the same Answer and Extra sections when a reply is written, and the same variables
  afterwards. Handled in two states with the same allow-list, whose caches may differ,
  they give the same decision and the same Answer and Extra sections whenever both calls
  return.
\<close>

theorem handle_first_question_only:
  assumes "Question r1 = q # qs1" and "Question r2 = q # qs2"
  shows "outcome (handle NewRR s r1) = outcome (handle NewRR s r2)
       \<and> (cache_ok NewRR s1 \<and> cache_ok NewRR s2 \<and> subdomains s1 = subdomains s2
            \<and> handle NewRR s1 r1 = Inr (out1, s1') \<and> handle NewRR s2 r2 = Inr (out2, s2')
          \<longrightarrow> map_option (\<lambda>m. (Answer m, Extra m)) out1
                = map_option (\<lambda>m. (Answer m, Extra m)) out2)"
proof (intro conjI impI)
  show "outcome (handle NewRR s r1) = outcome (handle NewRR s r2)"
    using assms
    by (simp add: handle_def Let_def SetReply_def new_Msg_def split: sum.splits prod.splits)
next
  assume h: "cache_ok NewRR s1 \<and> cache_ok NewRR s2 \<and> subdomains s1 = subdomains s2
            \<and> handle NewRR s1 r1 = Inr (out1, s1') \<and> handle NewRR s2 r2 = Inr (out2, s2')"
  then have "map_option (\<lambda>m. (Answer m, Extra m)) out1 =
     (if Qtype q = TypeNS \<and> Name q = ''t.example.com.''
      then Some ([NewRR ''t.example.com. 5 IN NS ns1.t.example.com.''],
                 [NewRR ''ns1.t.example.com. 5 IN A 192.168.0.11''])
      else if Name q \<in> set (subdomains s1)
      then Some ([NewRR (Name q @ '' 5 IN A 192.168.0.11'')], [])
      else None)"
    using assms(1) by (intro handle_returns) blast+
  moreover from h have "map_option (\<lambda>m. (Answer m, Extra m)) out2 =
     (if Qtype q = TypeNS \<and> Name q = ''t.example.com.''
      then Some ([NewRR ''t.example.com. 5 IN NS ns1.t.example.com.''],
                 [NewRR ''ns1.t.example.com. 5 IN A 192.168.0.11''])
      else if Name q \<in> set (subdomains s2)
      then Some ([NewRR (Name q @ '' 5 IN A 192.168.0.11'')], [])
      else None)"
    using assms(2) by (intro handle_returns) blast+
  ultimately show "map_option (\<lambda>m. (Answer m, Extra m)) out1
                = map_option (\<lambda>m. (Answer m, Extra m)) out2"
    using h by simp
qed

theorem handle_first_question_only_witness:
  "outcome (handle sampleNewRR init_state (sample_query ''www.t.example.com.'' TypeA))
     = outcome (handle sampleNewRR init_state
         \<lparr>Id_hdr = 9, Response = False,
          Question = [\<lparr>Name = ''www.t.example.com.'', Qtype = TypeA, Qclass = 1\<rparr>,
                      \<lparr>Name = ''evil.example.com.'', Qtype = TypeNS, Qclass = 1\<rparr>],
          Answer = [], Extra = []\<rparr>)
   \<and> handle sampleNewRR init_state (sample_query ''www.t.example.com.'' TypeA)
     = Inr (Some \<lparr>Id_hdr = 7, Response = True,
                  Question = [\<lparr>Name = ''www.t.example.com.'', Qtype = TypeA, Qclass = 1\<rparr>],
                  Answer = [Some (SampleRR ''www.t.example.com.'' ''5'' ''IN'' ''A'' ''192.168.0.11'')],
                  Extra = []\<rparr>,
            init_state\<lparr>rrCache := [''www.t.example.com. 5 IN A 192.168.0.11'' \<mapsto>
              Some (SampleRR ''www.t.example.com.'' ''5'' ''IN'' ''A'' ''192.168.0.11'')]\<rparr>)
   \<and> handle sampleNewRR
        (init_state\<lparr>rrCache := [''www.t.example.com. 5 IN A 192.168.0.11'' \<mapsto>
              Some (SampleRR ''www.t.example.com.'' ''5'' ''IN'' ''A'' ''192.168.0.11'')]\<rparr>)
        \<lparr>Id_hdr = 9, Response = False,
          Question = [\<lparr>Name = ''www.t.example.com.'', Qtype = TypeA, Qclass = 1\<rparr>,
                      \<lparr>Name = ''evil.example.com.'', Qtype = TypeNS, Qclass = 1\<rparr>],
          Answer = [], Extra = []\<rparr>
     = Inr (Some \<lparr>Id_hdr = 9, Response = True,
                  Question = [\<lparr>Name = ''www.t.example.com.'', Qtype = TypeA, Qclass = 1\<rparr>],
                  Answer = [Some (SampleRR ''www.t.example.com.'' ''5'' ''IN'' ''A'' ''192.168.0.11'')],
                  Extra = []\<rparr>,
            init_state\<lparr>rrCache := [''www.t.example.com. 5 IN A 192.168.0.11'' \<mapsto>
              Some (SampleRR ''www.t.example.com.'' ''5'' ''IN'' ''A'' ''192.168.0.11'')]\<rparr>)
   \<and> map_option (\<lambda>m. (Answer m, Extra m))
        (Some \<lparr>Id_hdr = 7, Response = True,
                Question = [\<lparr>Name = ''www.t.example.com.'', Qtype = TypeA, Qclass = 1\<rparr>],
                Answer = [Some (SampleRR ''www.t.example.com.'' ''5'' ''IN'' ''A'' ''192.168.0.11'')],
                Extra = []\<rparr>)
     = map_option (\<lambda>m. (Answer m, Extra m))
        (Some \<lparr>Id_hdr = 9, Response = True,
                Question = [\<lparr>Name = ''www.t.example.com.'', Qtype = TypeA, Qclass = 1\<rparr>],
                Answer = [Some (SampleRR ''www.t.example.com.'' ''5'' ''IN'' ''A'' ''192.168.0.11'')],
                Extra = []\<rparr>)"
proof -
  let ?a = "SampleRR ''www.t.example.com.'' ''5'' ''IN'' ''A'' ''192.168.0.11''"
  let ?s1 = "init_state\<lparr>rrCache := [''www.t.example.com. 5 IN A 192.168.0.11'' \<mapsto> Some ?a]\<rparr>"
  let ?r1 = "sample_query ''www.t.example.com.'' TypeA"
  let ?q = "\<lparr>Name = ''www.t.example.com.'', Qtype = TypeA, Qclass = 1\<rparr>"
  let ?r2 = "\<lparr>Id_hdr = 9, Response = False,
          Question = [?q, \<lparr>Name = ''evil.example.com.'', Qtype = TypeNS, Qclass = 1\<rparr>],
          Answer = [], Extra = []\<rparr> :: sample_rr msg"
  let ?m1 = "\<lparr>Id_hdr = 7, Response = True, Question = [?q], Answer = [Some ?a], Extra = []\<rparr>"
  let ?m2 = "\<lparr>Id_hdr = 9, Response = True, Question = [?q], Answer = [Some ?a], Extra = []\<rparr>"
  have e1: "handle sampleNewRR init_state ?r1 = Inr (Some ?m1, ?s1)"
    by (simp add: handle_def newRR_def Let_def Contains_iff sample_query_def init_state_def
        SetReply_def new_Msg_def defaultSubdomains_def TypeA_def TypeNS_def sampleNewRR_www)
  have e2: "handle sampleNewRR ?s1 ?r2 = Inr (Some ?m2, ?s1)"
    by (simp add: handle_def newRR_def Let_def Contains_iff init_state_def
        SetReply_def new_Msg_def defaultSubdomains_def TypeA_def TypeNS_def)
  have q1: "Question ?r1 = ?q # []" by (simp add: sample_query_def)
  have q2: "Question ?r2 = ?q # [\<lparr>Name = ''evil.example.com.'', Qtype = TypeNS, Qclass = 1\<rparr>]"
    by simp
  have c1: "cache_ok sampleNewRR ?s1"
    by (simp add: cache_ok_def init_state_def sampleNewRR_www)
  note th = handle_first_question_only [where NewRR = sampleNewRR
      and s = init_state and ?s1.0 = init_state and ?s2.0 = ?s1
      and ?out1.0 = "Some ?m1" and ?out2.0 = "Some ?m2" and s1' = ?s1 and s2' = ?s1, OF q1 q2]
  have c0: "cache_ok sampleNewRR init_state" by (rule cache_ok_init)
  have sd: "subdomains (init_state :: sample_rr state) = subdomains ?s1" by simp
  from th have "outcome (handle sampleNewRR init_state ?r1)
      = outcome (handle sampleNewRR init_state ?r2)" by blast
  moreover from th c0 c1 sd e1 e2
  have "map_option (\<lambda>m. (Answer m, Extra m)) (Some ?m1)
      = map_option (\<lambda>m. (Answer m, Extra m)) (Some ?m2)" by blast
  ultimately show ?thesis using e1 e2 by blast
qed

text \<open>
  C9. A first question whose name is in the allow-list and which is not the delegation
  pair, of any type: the handler writes a reply with exactly the A record of the text
  \<^verbatim>\<open><name> 5 IN A 192.168.0.11\<close> in Answer and nothing in Extra. It is what the same query
  with type A gets.
\<close>

theorem handle_type_ignored:
  assumes "Question r = q # qs"
    and "Name q \<in> set (subdomains s)"
    and "\<not> (Qtype q = TypeNS \<and> Name q = ''t.example.com.'')"
    and "cache_ok NewRR s"
    and "NewRR (Name q @ '' 5 IN A 192.168.0.11'') = Some a"
  shows "(\<exists>m s'. handle NewRR s r = Inr (Some m, s') \<and> Answer m = [Some a] \<and> Extra m = [])
       \<and> outcome (handle NewRR s r)
           = outcome (handle NewRR s (r\<lparr>Question := q\<lparr>Qtype := TypeA\<rparr> # qs\<rparr>))"
proof -
  let ?s' = "s\<lparr>rrCache := (rrCache s)(Name q @ '' 5 IN A 192.168.0.11'' \<mapsto> Some a)\<rparr>"
  let ?r' = "r\<lparr>Question := q\<lparr>Qtype := TypeA\<rparr> # qs\<rparr>"
  have 1: "handle NewRR s r = Inr (Some ((SetReply new_Msg r)\<lparr>Answer := [Some a]\<rparr>), ?s')"
    using assms(1,3,2,4,5) by (rule handle_lookup_hit)
  have "Question ?r' = q\<lparr>Qtype := TypeA\<rparr> # qs" by simp
  moreover have "\<not> (Qtype (q\<lparr>Qtype := TypeA\<rparr>) = TypeNS \<and> Name (q\<lparr>Qtype := TypeA\<rparr>) = ''t.example.com.'')"
    by (simp add: TypeA_def TypeNS_def)
  moreover have "Name (q\<lparr>Qtype := TypeA\<rparr>) \<in> set (subdomains s)"
    using assms(2) by simp
  moreover note assms(4)
  moreover have "NewRR (Name (q\<lparr>Qtype := TypeA\<rparr>) @ '' 5 IN A 192.168.0.11'') = Some a"
    using assms(5) by simp
  ultimately have 2: "handle NewRR s ?r' =
      Inr (Some ((SetReply new_Msg ?r')\<lparr>Answer := [Some a]\<rparr>),
        s\<lparr>rrCache := (rrCache s)(Name (q\<lparr>Qtype := TypeA\<rparr>) @ '' 5 IN A 192.168.0.11'' \<mapsto> Some a)\<rparr>)"
    by (rule handle_lookup_hit)
  have "Extra ((SetReply new_Msg r)\<lparr>Answer := [Some a]\<rparr>) = []"
    by (simp add: SetReply_def new_Msg_def)
  with 1 have "\<exists>m s'. handle NewRR s r = Inr (Some m, s') \<and> Answer m = [Some a] \<and> Extra m = []"
    by simp
  moreover have "outcome (handle NewRR s r) = outcome (handle NewRR s ?r')"
    by (simp add: 1 2 SetReply_def new_Msg_def)
  ultimately show ?thesis by blast
qed

theorem handle_type_ignored_witness:
  "(\<exists>m s'. handle sampleNewRR init_state (sample_query ''www.t.example.com.'' 28)
              = Inr (Some m, s')
           \<and> Answer m = [Some (SampleRR ''www.t.example.com.'' ''5'' ''IN'' ''A'' ''192.168.0.11'')]
           \<and> Extra m = [])
   \<and> (\<exists>m s'. handle sampleNewRR init_state (sample_query ''www.t.example.com.'' TypeNS)
              = Inr (Some m, s')
           \<and> Answer m = [Some (SampleRR ''www.t.example.com.'' ''5'' ''IN'' ''A'' ''192.168.0.11'')]
           \<and> Extra m = [])"
proof -
  let ?a = "SampleRR ''www.t.example.com.'' ''5'' ''IN'' ''A'' ''192.168.0.11''"
  have n: "sampleNewRR (''www.t.example.com.'' @ '' 5 IN A 192.168.0.11'') = Some ?a"
    using sampleNewRR_www by simp
  have w: "''www.t.example.com.'' \<in> set (subdomains (init_state :: sample_rr state))"
    by (simp add: init_state_def defaultSubdomains_def)
  have "\<exists>m s'. handle sampleNewRR init_state (sample_query ''www.t.example.com.'' 28)
              = Inr (Some m, s') \<and> Answer m = [Some ?a] \<and> Extra m = []"
    using handle_type_ignored [where r = "sample_query ''www.t.example.com.'' 28"
        and q = "\<lparr>Name = ''www.t.example.com.'', Qtype = 28, Qclass = 1\<rparr>" and qs = "[]"
        and s = init_state and NewRR = sampleNewRR and a = ?a] n w
      cache_ok_init [of sampleNewRR]
    by (simp add: sample_query_def TypeNS_def)
  moreover have "\<exists>m s'. handle sampleNewRR init_state (sample_query ''www.t.example.com.'' TypeNS)
              = Inr (Some m, s') \<and> Answer m = [Some ?a] \<and> Extra m = []"
    using handle_type_ignored [where r = "sample_query ''www.t.example.com.'' TypeNS"
        and q = "\<lparr>Name = ''www.t.example.com.'', Qtype = TypeNS, Qclass = 1\<rparr>" and qs = "[]"
        and s = init_state and NewRR = sampleNewRR and a = ?a] n w
      cache_ok_init [of sampleNewRR]
    by (simp add: sample_query_def)
  ultimately show ?thesis by blast
qed

text \<open>
  C10. The handler panics with an index out of range exactly when the query has no
  question: \<^verbatim>\<open>r.Question[0]\<close> is read before any check of the length.
\<close>

theorem handle_empty_question_panics:
  "(handle NewRR s r = Inl IndexOutOfRange) = (Question r = [])"
proof (cases "Question r")
  case Nil
  then show ?thesis by (simp add: handle_def)
next
  case (Cons q qs)
  then have "handle NewRR s r \<noteq> Inl IndexOutOfRange" by (rule handle_no_index_panic)
  with Cons show ?thesis by simp
qed

theorem handle_empty_question_panics_witness:
  "handle sampleNewRR init_state
     \<lparr>Id_hdr = 7, Response = False, Question = [], Answer = [], Extra = []\<rparr>
   = Inl IndexOutOfRange"
  using handle_empty_question_panics [of sampleNewRR init_state
      "\<lparr>Id_hdr = 7, Response = False, Question = [], Answer = [], Extra = []\<rparr>"]
  by simp

end
